theory Spec2Isabelle
  imports Main "HOL-Library.Word"
begin

section \<open>The bank example: ledger model\<close>

text \<open>
  Source: \<^verbatim>\<open>examples/bank/bank.go\<close>. The program keeps a fixed number of accounts in a
  key-value store, moves random amounts between them and periodically checks that the
  total is unchanged. Byte slices are modelled as \<^typ>\<open>string\<close> (lists of 8-bit
  characters), Go's \<^verbatim>\<open>int64\<close> as \<^typ>\<open>64 word\<close>, \<^verbatim>\<open>int32\<close> as \<^typ>\<open>32 word\<close>, and
  Go's \<^verbatim>\<open>int\<close> (account indices, \<^verbatim>\<open>numAccounts\<close>) as \<^typ>\<open>int\<close>: no operation of the
  program on these values can overflow 64 bits. The program is concurrent; the model is
  the sequential behaviour of each of its functions on a given state of the store.
\<close>

type_synonym bytes = string

subsection \<open>Byte-wise comparison\<close>

text \<open>
  \<^verbatim>\<open>bytes.Compare(a, b) < 0\<close>: lexicographic comparison of the unsigned byte values; a
  proper prefix is smaller.
\<close>

fun bytes_less :: "bytes \<Rightarrow> bytes \<Rightarrow> bool" where
  "bytes_less [] [] = False"
| "bytes_less [] (y # ys) = True"
| "bytes_less (x # xs) [] = False"
| "bytes_less (x # xs) (y # ys) =
     (if (of_char x :: nat) < of_char y then True
      else if (of_char y :: nat) < of_char x then False
      else bytes_less xs ys)"

subsection \<open>Decimal formatting\<close>

definition digit_char :: "nat \<Rightarrow> char" where
  "digit_char d = char_of (of_char (CHR ''0'') + d :: nat)"

text \<open>The decimal digits of a natural number, most significant first, \<^verbatim>\<open>"0"\<close> for zero.\<close>

function digits :: "nat \<Rightarrow> string" where
  "digits n = (if n < 10 then [digit_char n] else digits (n div 10) @ [digit_char (n mod 10)])"
  by pat_completeness auto
termination
  by (relation "measure id") auto

declare digits.simps [simp del]

definition zero_pad :: "nat \<Rightarrow> string \<Rightarrow> string" where
  "zero_pad w s = replicate (w - length s) (CHR ''0'') @ s"

text \<open>
  \<^verbatim>\<open>fmt.Sprintf("%09d", n)\<close>: at least nine characters, padded with zeros on the left; a
  minus sign counts towards the width and precedes the zeros; longer numbers are not
  truncated.
\<close>

definition sprintf_09d :: "int \<Rightarrow> string" where
  "sprintf_09d n =
     (if n < 0 then CHR ''-'' # zero_pad 8 (digits (nat (- n)))
      else zero_pad 9 (digits (nat n)))"

text \<open>
  \<^verbatim>\<open>func makeAccountID(id int) []byte { return []byte(fmt.Sprintf("%09d", id)) }\<close>
\<close>

definition makeAccountID :: "int \<Rightarrow> bytes" where
  "makeAccountID i = sprintf_09d i"


subsection \<open>JSON\<close>

text \<open>
  \<^verbatim>\<open>Account.encode\<close> and \<^verbatim>\<open>Account.decode\<close> are \<^verbatim>\<open>json.Marshal\<close> and \<^verbatim>\<open>json.Unmarshal\<close> of
  Go's standard library, modelled here after the documented behaviour of
  \<^verbatim>\<open>encoding/json\<close>. Unmarshal first checks that the whole input is one well-formed JSON
  value surrounded by optional white space, then stores it into the struct.

  The syntax check is a tokeniser (\<open>lex\<close>) followed by a parser that keeps the open arrays
  and objects on a stack (\<open>parse_tokens\<close>). String tokens keep the raw text between the
  quotes; number tokens keep the literal.
\<close>

abbreviation dquote :: char where "dquote \<equiv> CHR 0x22"
abbreviation backslash :: char where "backslash \<equiv> CHR 0x5C"

definition is_digit :: "char \<Rightarrow> bool" where
  "is_digit c = (48 \<le> (of_char c :: nat) \<and> (of_char c :: nat) \<le> 57)"

definition is_hex :: "char \<Rightarrow> bool" where
  "is_hex c = (is_digit c \<or> (97 \<le> (of_char c :: nat) \<and> (of_char c :: nat) \<le> 102)
     \<or> (65 \<le> (of_char c :: nat) \<and> (of_char c :: nat) \<le> 70))"

definition isSpace :: "char \<Rightarrow> bool" where
  "isSpace c = (c = CHR '' '' \<or> c = CHR 0x09 \<or> c = CHR 0x0D \<or> c = CHR 0x0A)"

definition hex4 :: "string \<Rightarrow> bool" where
  "hex4 cs = (4 \<le> length cs \<and> list_all is_hex (take 4 cs))"

definition simple_escape :: "char \<Rightarrow> bool" where
  "simple_escape e = (e = dquote \<or> e = backslash \<or> e = CHR ''/'' \<or> e = CHR ''b''
     \<or> e = CHR ''f'' \<or> e = CHR ''n'' \<or> e = CHR ''r'' \<or> e = CHR ''t'')"

text \<open>
  The rest of a string literal after its opening quote: the raw contents and the input
  after the closing quote. A backslash must be followed by one of
  \<^verbatim>\<open>" \ / b f n r t\<close> or by \<^verbatim>\<open>u\<close> and four hexadecimal digits; bytes below \<^verbatim>\<open>0x20\<close> are
  not allowed.
\<close>

fun scan_string :: "string \<Rightarrow> (string \<times> string) option" where
  "scan_string [] = None"
| "scan_string (c # cs) =
    (if c = dquote then Some ([], cs)
     else if c = backslash then
       (case cs of
          [] \<Rightarrow> None
        | e # cs' \<Rightarrow>
            if simple_escape e \<or> (e = CHR ''u'' \<and> hex4 cs')
            then map_option (\<lambda>(s, r). (c # e # s, r)) (scan_string cs')
            else None)
     else if (of_char c :: nat) < 32 then None
     else map_option (\<lambda>(s, r). (c # s, r)) (scan_string cs))"

text \<open>
  A number literal: an optional minus sign, \<^verbatim>\<open>0\<close> or a digit sequence without leading
  zero, an optional fraction, an optional exponent. Each function takes the literal read
  so far and the remaining input.
\<close>

definition scan_exp :: "string \<Rightarrow> string \<Rightarrow> (string \<times> string) option" where
  "scan_exp acc r =
    (case r of
       [] \<Rightarrow> Some (acc, r)
     | e # r' \<Rightarrow>
         if e = CHR ''e'' \<or> e = CHR ''E'' then
           (let (sg, r'') = (case r' of
                               [] \<Rightarrow> ([], r')
                             | s # t \<Rightarrow> if s = CHR ''+'' \<or> s = CHR ''-'' then ([s], t) else ([], r'));
                ds = takeWhile is_digit r''
            in if ds = [] then None else Some (acc @ e # sg @ ds, dropWhile is_digit r''))
         else Some (acc, r))"

definition scan_frac :: "string \<Rightarrow> string \<Rightarrow> (string \<times> string) option" where
  "scan_frac acc r =
    (case r of
       [] \<Rightarrow> scan_exp acc r
     | d # r' \<Rightarrow>
         if d = CHR ''.'' then
           (let ds = takeWhile is_digit r'
            in if ds = [] then None else scan_exp (acc @ d # ds) (dropWhile is_digit r'))
         else scan_exp acc r)"

definition scan_int :: "string \<Rightarrow> string \<Rightarrow> (string \<times> string) option" where
  "scan_int sign r =
    (case r of
       [] \<Rightarrow> None
     | d # r' \<Rightarrow>
         if d = CHR ''0'' then scan_frac (sign @ [d]) r'
         else if is_digit d then
           scan_frac (sign @ d # takeWhile is_digit r') (dropWhile is_digit r')
         else None)"

definition scan_number :: "string \<Rightarrow> (string \<times> string) option" where
  "scan_number cs =
    (case cs of
       [] \<Rightarrow> None
     | c # r \<Rightarrow> if c = CHR ''-'' then scan_int [c] r else scan_int [] cs)"

datatype token =
  TLBrace | TRBrace | TLBracket | TRBracket | TColon | TComma
  | TString string | TNumber string | TTrue | TFalse | TNull

lemma scan_string_length: "scan_string cs = Some (s, r) \<Longrightarrow> length r < Suc (length cs)"
proof (induction cs arbitrary: s r rule: scan_string.induct)
  case 1
  then show ?case by simp
next
  case (2 c cs)
  then show ?case
    by (fastforce split: if_splits list.splits)
qed

lemma scan_exp_length: "scan_exp acc cs = Some (s, r) \<Longrightarrow> length r \<le> length cs"
  by (auto simp: scan_exp_def Let_def length_dropWhile_le le_SucI split: list.splits if_splits)

lemma scan_frac_length: "scan_frac acc cs = Some (s, r) \<Longrightarrow> length r \<le> length cs"
  by (auto simp: scan_frac_def Let_def split: list.splits if_splits
      dest!: scan_exp_length intro: le_trans [OF _ length_dropWhile_le] le_SucI)

lemma scan_int_length: "scan_int sg cs = Some (s, r) \<Longrightarrow> length r < length cs"
  by (auto simp: scan_int_def split: list.splits if_splits
      dest!: scan_frac_length intro: le_trans [OF _ length_dropWhile_le] le_SucI less_Suc_eq_le[THEN iffD2])

lemma scan_number_length: "scan_number cs = Some (s, r) \<Longrightarrow> length r < length cs"
  by (auto simp: scan_number_def split: list.splits if_splits dest!: scan_int_length)

definition cons_token :: "token \<Rightarrow> token list option \<Rightarrow> token list option" where
  "cons_token t r = map_option ((#) t) r"

definition punct_token :: "char \<Rightarrow> token option" where
  "punct_token c =
    (if c = CHR ''{'' then Some TLBrace
     else if c = CHR ''}'' then Some TRBrace
     else if c = CHR ''['' then Some TLBracket
     else if c = CHR '']'' then Some TRBracket
     else if c = CHR '':'' then Some TColon
     else if c = CHR '','' then Some TComma
     else None)"

definition literal_token :: "char \<Rightarrow> string \<Rightarrow> (token \<times> string) option" where
  "literal_token c cs =
    (if c = CHR ''t'' then (if take 3 cs = ''rue'' then Some (TTrue, drop 3 cs) else None)
     else if c = CHR ''f'' then (if take 4 cs = ''alse'' then Some (TFalse, drop 4 cs) else None)
     else if c = CHR ''n'' then (if take 3 cs = ''ull'' then Some (TNull, drop 3 cs) else None)
     else None)"

definition next_token :: "char \<Rightarrow> string \<Rightarrow> (token \<times> string) option" where
  "next_token c cs =
    (case punct_token c of
       Some t \<Rightarrow> Some (t, cs)
     | None \<Rightarrow>
         if c = dquote then map_option (\<lambda>(s, rest). (TString s, rest)) (scan_string cs)
         else if c = CHR ''-'' \<or> is_digit c then
           map_option (\<lambda>(s, rest). (TNumber s, rest)) (scan_number (c # cs))
         else literal_token c cs)"

lemma literal_token_length: "literal_token c cs = Some (t, rest) \<Longrightarrow> length rest \<le> length cs"
  by (simp add: literal_token_def split: if_splits) auto

lemma next_token_length: "next_token c cs = Some (t, rest) \<Longrightarrow> length rest < Suc (length cs)"
proof (cases "punct_token c")
  case (Some t')
  assume "next_token c cs = Some (t, rest)"
  with Some show ?thesis by (simp add: next_token_def)
next
  case None
  assume a: "next_token c cs = Some (t, rest)"
  show ?thesis
  proof (cases "c = dquote")
    case True
    with a None obtain s where "scan_string cs = Some (s, rest)"
      by (auto simp: next_token_def)
    then show ?thesis by (rule scan_string_length)
  next
    case False
    show ?thesis
    proof (cases "c = CHR ''-'' \<or> is_digit c")
      case True
      with a None False obtain s where "scan_number (c # cs) = Some (s, rest)"
        by (auto simp: next_token_def)
      then have "length rest < length (c # cs)" by (rule scan_number_length)
      then show ?thesis by simp
    next
      case nd: False
      with a None False have "literal_token c cs = Some (t, rest)"
        by (simp add: next_token_def)
      then have "length rest \<le> length cs" by (rule literal_token_length)
      then show ?thesis by simp
    qed
  qed
qed

function lex :: "string \<Rightarrow> token list option" where
  "lex [] = Some []"
| "lex (c # cs) =
    (if isSpace c then lex cs
     else (case next_token c cs of
             None \<Rightarrow> None
           | Some (t, rest) \<Rightarrow> cons_token t (lex rest)))"
  by pat_completeness auto
termination
  by (relation "measure length") (auto dest: next_token_length)

text \<open>
  Parsed values. \<open>JNumber\<close> carries the number literal, \<open>JString\<close> and the member names
  of \<open>JObject\<close> carry the raw text between the quotes; members are kept in input order,
  duplicates included.
\<close>

datatype json =
  JNull | JBool bool | JNumber string | JString string
  | JArray "json list" | JObject "(string \<times> json) list"

datatype frame = FArray "json list" | FObject "(string \<times> json) list" string

datatype expect = EValue | EValueOrClose | EKeyOrClose | EKey | EColon | ECommaOrClose

datatype pstate = Parsing "frame list" expect | Finished json

fun complete :: "json \<Rightarrow> frame list \<Rightarrow> pstate" where
  "complete v [] = Finished v"
| "complete v (FArray acc # st) = Parsing (FArray (v # acc) # st) ECommaOrClose"
| "complete v (FObject acc k # st) = Parsing (FObject ((k, v) # acc) k # st) ECommaOrClose"

definition wants_value :: "expect \<Rightarrow> bool" where
  "wants_value e = (e = EValue \<or> e = EValueOrClose)"

definition pstep :: "pstate \<Rightarrow> token \<Rightarrow> pstate option" where
  "pstep p t =
    (case p of
       Finished v \<Rightarrow> None
     | Parsing st e \<Rightarrow>
        (case t of
           TLBrace \<Rightarrow>
             if wants_value e then Some (Parsing (FObject [] [] # st) EKeyOrClose) else None
         | TLBracket \<Rightarrow>
             if wants_value e then Some (Parsing (FArray [] # st) EValueOrClose) else None
         | TRBrace \<Rightarrow>
             (case st of
                FObject acc k # st' \<Rightarrow>
                  if e = EKeyOrClose \<or> e = ECommaOrClose
                  then Some (complete (JObject (rev acc)) st') else None
              | _ \<Rightarrow> None)
         | TRBracket \<Rightarrow>
             (case st of
                FArray acc # st' \<Rightarrow>
                  if e = EValueOrClose \<or> e = ECommaOrClose
                  then Some (complete (JArray (rev acc)) st') else None
              | _ \<Rightarrow> None)
         | TColon \<Rightarrow> if e = EColon then Some (Parsing st EValue) else None
         | TComma \<Rightarrow>
             if e = ECommaOrClose then
               (case st of
                  FObject acc k # st' \<Rightarrow> Some (Parsing st EKey)
                | FArray acc # st' \<Rightarrow> Some (Parsing st EValue)
                | [] \<Rightarrow> None)
             else None
         | TString s \<Rightarrow>
             if e = EKeyOrClose \<or> e = EKey then
               (case st of
                  FObject acc k # st' \<Rightarrow> Some (Parsing (FObject acc s # st') EColon)
                | _ \<Rightarrow> None)
             else if wants_value e then Some (complete (JString s) st)
             else None
         | TNumber s \<Rightarrow> if wants_value e then Some (complete (JNumber s) st) else None
         | TTrue \<Rightarrow> if wants_value e then Some (complete (JBool True) st) else None
         | TFalse \<Rightarrow> if wants_value e then Some (complete (JBool False) st) else None
         | TNull \<Rightarrow> if wants_value e then Some (complete JNull st) else None))"

fun parse_tokens :: "pstate \<Rightarrow> token list \<Rightarrow> json option" where
  "parse_tokens (Finished v) [] = Some v"
| "parse_tokens (Parsing st e) [] = None"
| "parse_tokens p (t # ts) =
     (case pstep p t of None \<Rightarrow> None | Some p' \<Rightarrow> parse_tokens p' ts)"

definition parse_json :: "bytes \<Rightarrow> json option" where
  "parse_json b =
     (case lex b of None \<Rightarrow> None | Some ts \<Rightarrow> parse_tokens (Parsing [] EValue) ts)"

subsection \<open>Decoding into the Account struct\<close>

text \<open>
  Unmarshal matches an object member to the struct field \<^verbatim>\<open>Balance\<close> when the unquoted
  member name equals the field name, exactly or under case folding. The field name
  consists of ASCII letters only, so a name matches only if its unquoted form consists of
  ASCII bytes: \<open>unquote_ascii\<close> returns the unquoted name when every byte and every
  \<^verbatim>\<open>\u\<close> escape of it is below 128, and \<open>None\<close> otherwise (such a name cannot match).
\<close>

definition hex_digit_val :: "char \<Rightarrow> nat" where
  "hex_digit_val c =
    (let n = (of_char c :: nat)
     in if n \<le> 57 then n - 48 else if 97 \<le> n then n - 87 else n - 55)"

definition hex_val :: "string \<Rightarrow> nat" where
  "hex_val cs = foldl (\<lambda>acc c. 16 * acc + hex_digit_val c) 0 cs"

definition unescape :: "char \<Rightarrow> char" where
  "unescape e =
    (if e = CHR ''b'' then CHR 0x08
     else if e = CHR ''f'' then CHR 0x0C
     else if e = CHR ''n'' then CHR 0x0A
     else if e = CHR ''r'' then CHR 0x0D
     else if e = CHR ''t'' then CHR 0x09
     else e)"

function unquote_ascii :: "string \<Rightarrow> string option" where
  "unquote_ascii [] = Some []"
| "unquote_ascii (c # cs) =
    (if c = backslash then
       (case cs of
          [] \<Rightarrow> None
        | e # cs' \<Rightarrow>
            if e = CHR ''u'' then
              (if hex_val (take 4 cs') < 128
               then map_option ((#) (char_of (hex_val (take 4 cs')))) (unquote_ascii (drop 4 cs'))
               else None)
            else map_option ((#) (unescape e)) (unquote_ascii cs'))
     else if 128 \<le> (of_char c :: nat) then None
     else map_option ((#) c) (unquote_ascii cs))"
  by pat_completeness auto
termination
  by (relation "measure length") auto

definition ascii_upper :: "char \<Rightarrow> char" where
  "ascii_upper c =
    (if 97 \<le> (of_char c :: nat) \<and> (of_char c :: nat) \<le> 122
     then char_of ((of_char c :: nat) - 32) else c)"

definition equalFold :: "string \<Rightarrow> string \<Rightarrow> bool" where
  "equalFold s t = (map ascii_upper s = map ascii_upper t)"

definition is_Balance_key :: "string \<Rightarrow> bool" where
  "is_Balance_key raw =
    (case unquote_ascii raw of
       None \<Rightarrow> False
     | Some key \<Rightarrow> key = ''Balance'' \<or> equalFold ''Balance'' key)"

text \<open>
  \<^verbatim>\<open>strconv.ParseInt(s, 10, 64)\<close>: an optional sign and at least one decimal digit, nothing
  else; the value must lie in \<open>[-2\<^sup>6\<^sup>3, 2\<^sup>6\<^sup>3)\<close>. \<^verbatim>\<open>strconv.FormatInt(i, 10)\<close>, which
  Marshal uses for an \<^verbatim>\<open>int64\<close> field.
\<close>

definition digit_val :: "char \<Rightarrow> nat" where
  "digit_val c = (of_char c :: nat) - 48"

definition decimal_val :: "string \<Rightarrow> nat" where
  "decimal_val ds = foldl (\<lambda>acc c. 10 * acc + digit_val c) 0 ds"

definition ParseInt64 :: "string \<Rightarrow> 64 word option" where
  "ParseInt64 s =
    (let (neg, ds) =
       (case s of
          [] \<Rightarrow> (False, [])
        | c # r \<Rightarrow>
            if c = CHR ''-'' then (True, r)
            else if c = CHR ''+'' then (False, r)
            else (False, s))
     in if ds = [] \<or> \<not> list_all is_digit ds then None
        else (let v = int (decimal_val ds); n = (if neg then - v else v)
              in if - (2 ^ 63) \<le> n \<and> n < 2 ^ 63 then Some (word_of_int n) else None))"

definition FormatInt :: "int \<Rightarrow> string" where
  "FormatInt i = (if i < 0 then CHR ''-'' # digits (nat (- i)) else digits (nat i))"

text \<open>
  Errors: the two error kinds of \<^verbatim>\<open>json.Unmarshal\<close> (a type error names the JSON value
  that did not fit), an error reported by the store, and the run-time panic of an index
  out of range.
\<close>

datatype error =
  SyntaxError
  | UnmarshalTypeError string
  | StoreError string
  | IndexOutOfRange

text \<open>
  \<^verbatim>\<open>type Account struct { Balance int64 }\<close>. \<^verbatim>\<open>json.Marshal\<close> of this struct cannot fail and
  writes \<^verbatim>\<open>{"Balance":<decimal>}\<close>.
\<close>

record Account =
  Balance :: "64 word"

definition marshal_Account :: "Account \<Rightarrow> bytes" where
  "marshal_Account a =
    ''{'' @ [dquote] @ ''Balance'' @ [dquote] @ '':'' @ FormatInt (sint (Balance a)) @ ''}''"

definition encode :: "Account \<Rightarrow> error + bytes" where
  "encode a = Inr (marshal_Account a)"

text \<open>
  Storing a JSON value into the field \<^verbatim>\<open>Balance\<close>: \<^verbatim>\<open>null\<close> has no effect, a number literal
  is stored if \<^verbatim>\<open>ParseInt\<close> accepts it, everything else is a type error. Unmarshal keeps
  the first type error, goes on with the remaining members, and returns that error at the
  end. A top-level \<^verbatim>\<open>null\<close> has no effect; any other top-level value than an object is a
  type error.
\<close>

definition set_Balance :: "json \<Rightarrow> Account \<Rightarrow> error option \<times> Account" where
  "set_Balance v a =
    (case v of
       JNull \<Rightarrow> (None, a)
     | JNumber s \<Rightarrow>
         (case ParseInt64 s of
            Some n \<Rightarrow> (None, a\<lparr>Balance := n\<rparr>)
          | None \<Rightarrow> (Some (UnmarshalTypeError (''number '' @ s)), a))
     | JBool b \<Rightarrow> (Some (UnmarshalTypeError ''bool''), a)
     | JString s \<Rightarrow> (Some (UnmarshalTypeError ''string''), a)
     | JArray vs \<Rightarrow> (Some (UnmarshalTypeError ''array''), a)
     | JObject ms \<Rightarrow> (Some (UnmarshalTypeError ''object''), a))"

definition saveError :: "error option \<Rightarrow> error option \<Rightarrow> error option" where
  "saveError saved err = (case saved of None \<Rightarrow> err | Some e \<Rightarrow> Some e)"

fun unmarshal_members :: "(string \<times> json) list \<Rightarrow> error option \<times> Account \<Rightarrow> error option \<times> Account" where
  "unmarshal_members [] r = r"
| "unmarshal_members ((k, v) # ms) (saved, a) =
    (if is_Balance_key k
     then (case set_Balance v a of (err, a') \<Rightarrow> unmarshal_members ms (saveError saved err, a'))
     else unmarshal_members ms (saved, a))"

definition Unmarshal :: "bytes \<Rightarrow> Account \<Rightarrow> error option \<times> Account" where
  "Unmarshal b a =
    (case parse_json b of
       None \<Rightarrow> (Some SyntaxError, a)
     | Some v \<Rightarrow>
        (case v of
           JNull \<Rightarrow> (None, a)
         | JObject ms \<Rightarrow> unmarshal_members ms (None, a)
         | JBool x \<Rightarrow> (Some (UnmarshalTypeError ''bool''), a)
         | JNumber s \<Rightarrow> (Some (UnmarshalTypeError ''number''), a)
         | JString s \<Rightarrow> (Some (UnmarshalTypeError ''string''), a)
         | JArray vs \<Rightarrow> (Some (UnmarshalTypeError ''array''), a)))"

text \<open>
  \<^verbatim>\<open>func (a *Account) decode(b []byte) error { return json.Unmarshal(b, a) }\<close>: the
  error, if any, and the record as it is afterwards.
\<close>

definition decode :: "Account \<Rightarrow> bytes \<Rightarrow> error option \<times> Account" where
  "decode a b = Unmarshal b a"

text \<open>The values that the field \<^verbatim>\<open>Balance\<close> accepts.\<close>

definition storable :: "json \<Rightarrow> bool" where
  "storable v = (case v of JNull \<Rightarrow> True | JNumber s \<Rightarrow> ParseInt64 s \<noteq> None | _ \<Rightarrow> False)"

subsection \<open>The key-value store client\<close>

text \<open>
  Modelled from the spec: the package \<^verbatim>\<open>client\<close> (\<^verbatim>\<open>DB\<close>, \<^verbatim>\<open>Tx\<close>, \<^verbatim>\<open>Batch\<close>, \<^verbatim>\<open>Run\<close>,
  \<^verbatim>\<open>Scan\<close>) is not part of the sources at hand; only its example tests are. The store is
  modelled as the list of its key-value pairs in key order, after section 4.2 of the
  specification and the example tests: \<^verbatim>\<open>Put(key, value)\<close> sets the value of a key,
  \<^verbatim>\<open>Get(keys...)\<close> returns one row per requested key, with an empty value for an absent
  key, \<^verbatim>\<open>Scan(start, end, maxRows)\<close> returns the rows with \<open>start \<le> key < end\<close> in key
  order, at most \<open>maxRows\<close> of them, and \<^verbatim>\<open>Tx\<close> applies the writes of its closure together
  or not at all.

  Every operation may report an error. The model decides this by a script \<open>faults\<close>
  carried in the state: each call of \<open>Run\<close> and \<open>Scan\<close>, and each commit, takes the next
  entry; \<open>Some e\<close> makes the call fail with \<open>e\<close> and without effect, \<open>None\<close> or an empty
  script lets it succeed.
\<close>

record Result =
  Rows :: "(bytes \<times> bytes) list"
  Err :: "error option"

datatype op = Get "bytes list" | Put bytes bytes

record DB =
  kv :: "(bytes \<times> bytes) list"
  faults :: "error option list"

fun kv_get :: "(bytes \<times> bytes) list \<Rightarrow> bytes \<Rightarrow> bytes" where
  "kv_get [] k = []"
| "kv_get ((k', v) # s) k = (if k = k' then v else kv_get s k)"

fun kv_put :: "bytes \<Rightarrow> bytes \<Rightarrow> (bytes \<times> bytes) list \<Rightarrow> (bytes \<times> bytes) list" where
  "kv_put k v [] = [(k, v)]"
| "kv_put k v ((k', v') # s) =
    (if k = k' then (k, v) # s
     else if bytes_less k k' then (k, v) # (k', v') # s
     else (k', v') # kv_put k v s)"

definition next_fault :: "DB \<Rightarrow> error option \<times> DB" where
  "next_fault d =
    (case faults d of
       [] \<Rightarrow> (None, d)
     | f # fs \<Rightarrow> (f, d\<lparr>faults := fs\<rparr>))"

fun run_ops :: "op list \<Rightarrow> (bytes \<times> bytes) list \<Rightarrow> Result list \<times> (bytes \<times> bytes) list" where
  "run_ops [] s = ([], s)"
| "run_ops (Get ks # ops) s =
    (case run_ops ops s of
       (rs, s') \<Rightarrow> (\<lparr>Rows = map (\<lambda>k. (k, kv_get s k)) ks, Err = None\<rparr> # rs, s'))"
| "run_ops (Put k v # ops) s =
    (case run_ops ops (kv_put k v s) of
       (rs, s') \<Rightarrow> (\<lparr>Rows = [(k, v)], Err = None\<rparr> # rs, s'))"

definition Run :: "op list \<Rightarrow> DB \<Rightarrow> (error option \<times> Result list) \<times> DB" where
  "Run batch d =
    (case next_fault d of
       (Some e, d') \<Rightarrow> ((Some e, map (\<lambda>_. \<lparr>Rows = [], Err = Some e\<rparr>) batch), d')
     | (None, d') \<Rightarrow>
         (case run_ops batch (kv d') of
            (rs, s') \<Rightarrow> ((None, rs), d'\<lparr>kv := s'\<rparr>)))"

definition Scan :: "bytes \<Rightarrow> bytes \<Rightarrow> 64 word \<Rightarrow> DB \<Rightarrow> Result \<times> DB" where
  "Scan start end maxRows d =
    (case next_fault d of
       (Some e, d') \<Rightarrow> (\<lparr>Rows = [], Err = Some e\<rparr>, d')
     | (None, d') \<Rightarrow>
         (\<lparr>Rows = take (nat (sint maxRows))
                    (filter (\<lambda>(k, v). \<not> bytes_less k start \<and> bytes_less k end) (kv d')),
           Err = None\<rparr>, d'))"

text \<open>
  The ways the process ends through \<^verbatim>\<open>log.Fatal\<close>: with an error value; with "Could only
  read \<open>n\<close> of \<open>m\<close> rows of the database" (the incomplete scan of the specification); with
  "Total cash in the bank = \<open>t\<close>" (the invariant violation).
\<close>

datatype fatal = Fatal error | FatalRows nat int | FatalTotal "64 word"

text \<open>
  Modelled from the spec: \<^verbatim>\<open>db.Tx(closure)\<close>. The closure may end the process, return an
  error (the writes are discarded), or return nil, after which the commit may still fail.
  The closure's captured result variable is returned beside the error.
\<close>

definition Tx :: "(DB \<Rightarrow> (fatal + error option \<times> 'a) \<times> DB) \<Rightarrow> DB \<Rightarrow> (fatal + error option \<times> 'a) \<times> DB" where
  "Tx f d =
    (case f d of
       (Inl ft, d') \<Rightarrow> (Inl ft, d')
     | (Inr (Some e, x), d') \<Rightarrow> (Inr (Some e, x), d'\<lparr>kv := kv d\<rparr>)
     | (Inr (None, x), d') \<Rightarrow>
         (case next_fault d' of
            (Some e, d'') \<Rightarrow> (Inr (Some e, x), d''\<lparr>kv := kv d\<rparr>)
          | (None, d'') \<Rightarrow> (Inr (None, x), d'')))"

subsection \<open>The bank\<close>

text \<open>
  \<^verbatim>\<open>type Bank struct { db *client.DB; numAccounts int; numTransfers int32 }\<close>. The state
  of the store stands in for the handle.
\<close>

record Bank =
  db :: DB
  numAccounts :: int
  numTransfers :: "32 word"

text \<open>
  \<^verbatim>\<open>sumAllAccounts\<close>. \<open>sum_rows\<close> is the loop \<^verbatim>\<open>for i := 0; i < bank.numAccounts; i++\<close>
  over \<^verbatim>\<open>scan.Rows[i]\<close>; it runs only after the check \<^verbatim>\<open>len(scan.Rows) != bank.numAccounts\<close>
  has passed, so it visits every row once, in order. \<open>sumAllAccounts_tx\<close> is the body of
  the closure, applied to the result of the scan.
\<close>

fun sum_rows :: "(bytes \<times> bytes) list \<Rightarrow> 64 word \<Rightarrow> error + 64 word" where
  "sum_rows [] result = Inr result"
| "sum_rows ((k, v) # rows) result =
    (case decode \<lparr>Balance = 0\<rparr> v of
       (Some err, account) \<Rightarrow> Inl err
     | (None, account) \<Rightarrow> sum_rows rows (result + Balance account))"

definition sumAllAccounts_tx :: "int \<Rightarrow> Result \<Rightarrow> fatal + 64 word" where
  "sumAllAccounts_tx n scan =
    (case Err scan of
       Some e \<Rightarrow> Inl (Fatal e)
     | None \<Rightarrow>
         if int (length (Rows scan)) \<noteq> n then Inl (FatalRows (length (Rows scan)) n)
         else (case sum_rows (Rows scan) 0 of
                 Inl err \<Rightarrow> Inl (Fatal err)
               | Inr result \<Rightarrow> Inr result))"

definition sumAllAccounts :: "Bank \<Rightarrow> (fatal + 64 word) \<times> Bank" where
  "sumAllAccounts bank =
    (case Tx (\<lambda>tx.
            case Scan (makeAccountID 0) (makeAccountID (numAccounts bank))
                   (word_of_int (numAccounts bank)) tx of
              (scan, tx') \<Rightarrow>
                (case sumAllAccounts_tx (numAccounts bank) scan of
                   Inl ft \<Rightarrow> (Inl ft, tx')
                 | Inr result \<Rightarrow> (Inr (None, result), tx'))) (db bank) of
       (Inl ft, d') \<Rightarrow> (Inl ft, bank\<lparr>db := d'\<rparr>)
     | (Inr (Some err, result), d') \<Rightarrow> (Inl (Fatal err), bank\<lparr>db := d'\<rparr>)
     | (Inr (None, result), d') \<Rightarrow> (Inr result, bank\<lparr>db := d'\<rparr>))"

text \<open>
  \<^verbatim>\<open>result.Rows[i].ValueBytes()\<close>; an index out of range panics.
\<close>

definition row_value :: "Result \<Rightarrow> nat \<Rightarrow> error + bytes" where
  "row_value r i = (if i < length (Rows r) then Inr (snd (Rows r ! i)) else Inl IndexOutOfRange)"

text \<open>
  The closure \<^verbatim>\<open>transferMoney\<close> of \<^verbatim>\<open>continuousMoneyTransfer\<close>, with the variables it
  captures (\<^verbatim>\<open>from\<close>, \<^verbatim>\<open>to\<close>, \<^verbatim>\<open>exchangeAmount\<close>) as parameters. The write is
  \<^verbatim>\<open>batchWrite.Put(fromValue, toValue)\<close>, as in the source: the first argument of
  \<^verbatim>\<open>Put\<close> is the key.
\<close>

definition transferMoney :: "bytes \<Rightarrow> bytes \<Rightarrow> 64 word \<Rightarrow> DB \<Rightarrow> error option \<times> DB" where
  "transferMoney from to exchangeAmount runner =
    (case Run [Get [from, to]] runner of
       ((Some err, results), d1) \<Rightarrow> (Some err, d1)
     | ((None, results), d1) \<Rightarrow>
        (case results of
           [] \<Rightarrow> (Some IndexOutOfRange, d1)
         | r0 # rs \<Rightarrow>
            (case Err r0 of
               Some err \<Rightarrow> (Some err, d1)
             | None \<Rightarrow>
                (case row_value r0 0 of
                   Inl err \<Rightarrow> (Some err, d1)
                 | Inr fromBytes \<Rightarrow>
                    (case decode \<lparr>Balance = 0\<rparr> fromBytes of
                       (Some err, fromAccount) \<Rightarrow> (Some err, d1)
                     | (None, fromAccount) \<Rightarrow>
                        if Balance fromAccount <s exchangeAmount then (None, d1)
                        else
                          (case row_value r0 1 of
                             Inl err \<Rightarrow> (Some err, d1)
                           | Inr toBytes \<Rightarrow>
                              (case decode \<lparr>Balance = 0\<rparr> toBytes of
                                 (Some errRead, toAccount) \<Rightarrow> (Some errRead, d1)
                               | (None, toAccount) \<Rightarrow>
                                  (case encode (fromAccount\<lparr>Balance := Balance fromAccount - exchangeAmount\<rparr>) of
                                     Inl err \<Rightarrow> (Some err, d1)
                                   | Inr fromValue \<Rightarrow>
                                      (case encode (toAccount\<lparr>Balance := Balance toAccount + exchangeAmount\<rparr>) of
                                         Inl err \<Rightarrow> (Some err, d1)
                                       | Inr toValue \<Rightarrow>
                                          (case Run [Put fromValue toValue] d1 of
                                             ((err, results'), d2) \<Rightarrow> (err, d2)))))))))))"

text \<open>
  One round of the loop of \<^verbatim>\<open>continuousMoneyTransfer\<close>. The random draws are parameters:
  \<open>i\<close> and \<open>j\<close> are the two results of \<^verbatim>\<open>rand.Intn(bank.numAccounts)\<close>, \<open>exchangeAmount\<close>
  is the result of \<^verbatim>\<open>rand.Int63n(100)\<close>. Equal identifiers mean \<^verbatim>\<open>continue\<close>. The loop itself
  never ends; \<open>continuousMoneyTransfer\<close> runs it for a given finite list of draws.
\<close>

definition transfer_attempt :: "bool \<Rightarrow> int \<Rightarrow> int \<Rightarrow> 64 word \<Rightarrow> Bank \<Rightarrow> fatal + Bank" where
  "transfer_attempt useTransaction i j exchangeAmount bank =
    (let from = makeAccountID i; to = makeAccountID j
     in if from = to then Inr bank
        else
          (case (if useTransaction
                 then Tx (\<lambda>tx. case transferMoney from to exchangeAmount tx of
                                  (err, tx') \<Rightarrow> (Inr (err, ()), tx')) (db bank)
                 else (case transferMoney from to exchangeAmount (db bank) of
                         (err, d') \<Rightarrow> (Inr (err, ()), d'))) of
             (Inl ft, d') \<Rightarrow> Inl ft
           | (Inr (Some err, u), d') \<Rightarrow> Inl (Fatal err)
           | (Inr (None, u), d') \<Rightarrow>
               Inr (bank\<lparr>db := d', numTransfers := numTransfers bank + 1\<rparr>)))"

fun continuousMoneyTransfer :: "bool \<Rightarrow> (int \<times> int \<times> 64 word) list \<Rightarrow> Bank \<Rightarrow> fatal + Bank" where
  "continuousMoneyTransfer useTransaction [] bank = Inr bank"
| "continuousMoneyTransfer useTransaction ((i, j, amount) # draws) bank =
    (case transfer_attempt useTransaction i j amount bank of
       Inl ft \<Rightarrow> Inl ft
     | Inr bank' \<Rightarrow> continuousMoneyTransfer useTransaction draws bank')"

definition initBankAccounts :: "64 word \<Rightarrow> Bank \<Rightarrow> fatal + Bank" where
  "initBankAccounts cash bank =
    (case encode \<lparr>Balance = cash\<rparr> of
       Inl err \<Rightarrow> Inl (Fatal err)
     | Inr v \<Rightarrow>
        (case Run (map (\<lambda>i. Put (makeAccountID (int i)) v) [0 ..< nat (numAccounts bank)]) (db bank) of
           ((Some err, results), d') \<Rightarrow> Inl (Fatal err)
         | ((None, results), d') \<Rightarrow> Inr (bank\<lparr>db := d'\<rparr>)))"

text \<open>
  \<^verbatim>\<open>periodicallyCheckBalances\<close>. The lines printed to standard output are
  "\<open>n\<close> transfers were executed." and "The bank is in good order". \<open>checkBalances\<close> is one
  round of the loop (the sleep is not modelled): what it prints, and either the fatal end
  of the process or the bank for the next round. The loop ends only by a fatal error;
  \<open>periodicallyCheckBalances\<close> runs a given number of rounds of it.
\<close>

datatype printed = TransfersExecuted "32 word" | BankInGoodOrder

definition checkBalances :: "64 word \<Rightarrow> Bank \<Rightarrow> printed list \<times> (fatal + Bank)" where
  "checkBalances initCash bank =
    (case sumAllAccounts bank of
       (Inl ft, bank') \<Rightarrow> ([TransfersExecuted (numTransfers bank)], Inl ft)
     | (Inr totalAmount, bank') \<Rightarrow>
         if totalAmount \<noteq> word_of_int (numAccounts bank) * initCash
         then ([TransfersExecuted (numTransfers bank)], Inl (FatalTotal totalAmount))
         else ([TransfersExecuted (numTransfers bank), BankInGoodOrder], Inr bank'))"

fun periodicallyCheckBalances :: "nat \<Rightarrow> 64 word \<Rightarrow> Bank \<Rightarrow> printed list \<times> (fatal + Bank)" where
  "periodicallyCheckBalances 0 initCash bank = ([], Inr bank)"
| "periodicallyCheckBalances (Suc n) initCash bank =
    (case checkBalances initCash bank of
       (out, Inl ft) \<Rightarrow> (out, Inl ft)
     | (out, Inr bank') \<Rightarrow>
         (case periodicallyCheckBalances n initCash bank' of
            (out', r) \<Rightarrow> (out @ out', r)))"


subsection \<open>Ledgers\<close>

text \<open>
  The store that holds exactly the given balances under the identifiers \<open>0, 1, \<dots>\<close>, and
  the bank over it, with no store errors scheduled; the balance stored under the
  identifier of an index; and the property that all of the first \<open>n\<close> accounts hold a
  record with a balance \<open>\<ge> 0\<close>.
\<close>

definition ledger :: "64 word list \<Rightarrow> (bytes \<times> bytes) list" where
  "ledger bs =
    map (\<lambda>(i, b). (makeAccountID (int i), marshal_Account \<lparr>Balance = b\<rparr>)) (enumerate 0 bs)"

definition bank_of :: "64 word list \<Rightarrow> Bank" where
  "bank_of bs =
    \<lparr>db = \<lparr>kv = ledger bs, faults = []\<rparr>, numAccounts = int (length bs), numTransfers = 0\<rparr>"

definition account_balance :: "(bytes \<times> bytes) list \<Rightarrow> int \<Rightarrow> error + 64 word" where
  "account_balance s i =
    (case decode \<lparr>Balance = 0\<rparr> (kv_get s (makeAccountID i)) of
       (Some err, a) \<Rightarrow> Inl err
     | (None, a) \<Rightarrow> Inr (Balance a))"

definition accounts_nonneg :: "int \<Rightarrow> (bytes \<times> bytes) list \<Rightarrow> bool" where
  "accounts_nonneg n s =
    list_all (\<lambda>i. case account_balance s (int i) of
                    Inl err \<Rightarrow> False
                  | Inr b \<Rightarrow> 0 \<le>s b) [0 ..< nat n]"

section \<open>Properties of account identifiers\<close>

lemma of_char_digit_char: "d < 10 \<Longrightarrow> (of_char (digit_char d) :: nat) = 48 + d"
  by (simp add: digit_char_def)

lemma digit_char_0: "digit_char 0 = CHR ''0''"
  unfolding digit_char_def by (simp only: add_0_right char_of_char)











text \<open>
  The bound is sharp: the first ten-digit index sorts before the last nine-digit one.
\<close>

lemma char_of_digits:
  "char_of (48 :: nat) = CHR ''0''" "char_of (49 :: nat) = CHR ''1''" "char_of (57 :: nat) = CHR ''9''"
  by code_simp+

lemma makeAccountID_ten_digits:
  "makeAccountID 999999999 = ''999999999''" "makeAccountID 1000000000 = ''1000000000''"
  by (simp_all add: makeAccountID_def sprintf_09d_def zero_pad_def digits.simps digit_char_def char_of_digits)

lemma makeAccountID_order_breaks_at_ten_digits:
  "bytes_less (makeAccountID 1000000000) (makeAccountID 999999999)"
  by (simp add: makeAccountID_ten_digits)

section \<open>Encoding and decoding of account records\<close>

lemma is_digit_digit_char: "d < 10 \<Longrightarrow> is_digit (digit_char d)"
  by (simp add: is_digit_def of_char_digit_char)

lemma digit_val_digit_char: "d < 10 \<Longrightarrow> digit_val (digit_char d) = d"
  by (simp add: digit_val_def of_char_digit_char)

lemma is_digit_not_sign: "is_digit c \<Longrightarrow> c \<noteq> CHR ''-'' \<and> c \<noteq> CHR ''+''"
  by (auto simp: is_digit_def)

lemma digits_all_digit: "list_all is_digit (digits n)"
proof (induction n rule: digits.induct)
  case (1 n)
  show ?case
  proof (cases "n < 10")
    case True
    then show ?thesis by (subst digits.simps) (simp add: is_digit_digit_char)
  next
    case False
    with 1 show ?thesis by (subst digits.simps) (simp add: is_digit_digit_char)
  qed
qed

lemma decimal_val_snoc: "decimal_val (xs @ [c]) = 10 * decimal_val xs + digit_val c"
  by (simp add: decimal_val_def)

lemma decimal_val_digits: "decimal_val (digits n) = n"
proof (induction n rule: digits.induct)
  case (1 n)
  show ?case
  proof (cases "n < 10")
    case True
    then show ?thesis
      by (subst digits.simps) (simp add: decimal_val_def digit_val_digit_char)
  next
    case False
    with 1 show ?thesis
      by (subst digits.simps) (simp add: decimal_val_snoc digit_val_digit_char)
  qed
qed

lemma digits_Cons: "\<exists>d ds. digits n = d # ds \<and> is_digit d \<and> list_all is_digit ds \<and> (0 < n \<longrightarrow> d \<noteq> CHR ''0'')"
proof (induction n rule: digits.induct)
  case (1 n)
  show ?case
  proof (cases "n < 10")
    case True
    have "0 < n \<Longrightarrow> digit_char n \<noteq> CHR ''0''"
    proof
      assume "0 < n" "digit_char n = CHR ''0''"
      then have "(of_char (digit_char n) :: nat) = 48" by simp
      with True \<open>0 < n\<close> show False by (simp add: of_char_digit_char)
    qed
    with True show ?thesis
      by (subst digits.simps) (simp add: is_digit_digit_char)
  next
    case False
    then have "0 < n div 10" by simp
    with 1 False obtain d ds where
      "digits (n div 10) = d # ds" "is_digit d" "list_all is_digit ds" "d \<noteq> CHR ''0''"
      by auto
    with False show ?thesis
      by (subst digits.simps) (simp add: is_digit_digit_char)
  qed
qed

lemma digits_0: "digits 0 = ''0''"
  by (subst digits.simps) (simp add: digit_char_0)

lemma takeWhile_digits_stop:
  "list_all is_digit ds \<Longrightarrow> \<not> is_digit c \<Longrightarrow> takeWhile is_digit (ds @ c # rest) = ds"
  by (induction ds) simp_all

lemma dropWhile_digits_stop:
  "list_all is_digit ds \<Longrightarrow> \<not> is_digit c \<Longrightarrow> dropWhile is_digit (ds @ c # rest) = c # rest"
  by (induction ds) simp_all

lemma not_digit_rbrace: "\<not> is_digit (CHR ''}'')"
  by (simp add: is_digit_def)

lemma scan_frac_rbrace: "scan_frac acc (CHR ''}'' # rest) = Some (acc, CHR ''}'' # rest)"
  by (simp add: scan_frac_def scan_exp_def)

lemma scan_int_digits:
  "scan_int sg (digits n @ CHR ''}'' # rest) = Some (sg @ digits n, CHR ''}'' # rest)"
proof (cases "n = 0")
  case True
  then show ?thesis
    by (simp add: digits_0 scan_int_def scan_frac_rbrace)
next
  case False
  then obtain d ds where d: "digits n = d # ds" "is_digit d" "list_all is_digit ds" "d \<noteq> CHR ''0''"
    using digits_Cons [of n] by auto
  then show ?thesis
    by (simp add: scan_int_def takeWhile_digits_stop dropWhile_digits_stop
        not_digit_rbrace scan_frac_rbrace)
qed

lemma scan_number_FormatInt:
  "scan_number (FormatInt i @ CHR ''}'' # rest) = Some (FormatInt i, CHR ''}'' # rest)"
proof (cases "i < 0")
  case True
  then show ?thesis
    using scan_int_digits [of "''-''" "nat (- i)" rest]
    by (simp add: FormatInt_def scan_number_def)
next
  case False
  obtain d ds where d: "digits (nat i) = d # ds" "is_digit d"
    using digits_Cons [of "nat i"] by auto
  then have "d \<noteq> CHR ''-''" using is_digit_not_sign by blast
  with False d show ?thesis
    using scan_int_digits [of "[]" "nat i" rest]
    by (simp add: FormatInt_def scan_number_def)
qed

lemma FormatInt_Cons: "\<exists>c cs. FormatInt i = c # cs \<and> (c = CHR ''-'' \<or> is_digit c)"
  using digits_Cons [of "nat i"] by (auto simp: FormatInt_def)

lemma digits_not_Nil: "digits n \<noteq> []"
  using digits_Cons [of n] by auto

lemma ParseInt64_neg:
  "list_all is_digit ds \<Longrightarrow> ds \<noteq> [] \<Longrightarrow>
   ParseInt64 (CHR ''-'' # ds) =
     (if - (2 ^ 63) \<le> - int (decimal_val ds) \<and> - int (decimal_val ds) < 2 ^ 63
      then Some (word_of_int (- int (decimal_val ds))) else None)"
  by (simp add: ParseInt64_def)

lemma ParseInt64_pos:
  "list_all is_digit ds \<Longrightarrow> ds \<noteq> [] \<Longrightarrow>
   ParseInt64 ds =
     (if - (2 ^ 63) \<le> int (decimal_val ds) \<and> int (decimal_val ds) < 2 ^ 63
      then Some (word_of_int (int (decimal_val ds))) else None)"
proof -
  assume a: "list_all is_digit ds" "ds \<noteq> []"
  then obtain d r where ds: "ds = d # r" by (cases ds) auto
  with a have "is_digit d" by simp
  then have "d \<noteq> CHR ''-''" "d \<noteq> CHR ''+''" using is_digit_not_sign by blast+
  with a show ?thesis unfolding ds by (simp add: ParseInt64_def)
qed

lemma ParseInt64_FormatInt: "ParseInt64 (FormatInt (sint w)) = Some w"
proof -
  have range: "- (2 ^ 63) \<le> sint w" "sint w < 2 ^ 63"
    using sint_ge [of w] sint_lt [of w] by simp_all
  show ?thesis
  proof (cases "sint w < 0")
    case True
    then have "- int (decimal_val (digits (nat (- sint w)))) = sint w"
      by (simp add: decimal_val_digits)
    with range have "ParseInt64 (CHR ''-'' # digits (nat (- sint w))) = Some (word_of_int (sint w))"
      by (simp only: ParseInt64_neg [OF digits_all_digit digits_not_Nil] simp_thms if_True)
    with True show ?thesis by (simp add: FormatInt_def)
  next
    case False
    then have "int (decimal_val (digits (nat (sint w)))) = sint w"
      by (simp add: decimal_val_digits)
    with range have "ParseInt64 (digits (nat (sint w))) = Some (word_of_int (sint w))"
      by (simp only: ParseInt64_pos [OF digits_all_digit digits_not_Nil] simp_thms if_True)
    with False show ?thesis by (simp add: FormatInt_def)
  qed
qed

lemma scan_string_Balance:
  "scan_string (''Balance'' @ dquote # rest) = Some (''Balance'', rest)"
  by simp

lemma lex_rbrace: "lex ''}'' = Some [TRBrace]"
  by (simp add: isSpace_def next_token_def punct_token_def cons_token_def)

lemma lex_number_rbrace:
  "lex (FormatInt i @ ''}'') = Some [TNumber (FormatInt i), TRBrace]"
proof -
  obtain c cs where f: "FormatInt i = c # cs" "c = CHR ''-'' \<or> is_digit c"
    using FormatInt_Cons [of i] by auto
  have sp: "\<not> isSpace c" using f(2) by (auto simp: isSpace_def is_digit_def)
  have pt: "punct_token c = None" using f(2) by (auto simp: punct_token_def is_digit_def)
  have dq: "c \<noteq> dquote" using f(2) by (auto simp: is_digit_def)
  have "scan_number (c # cs @ ''}'') = Some (c # cs, ''}'')"
    using scan_number_FormatInt [of i "[]"] f(1) by simp
  then have nt: "next_token c (cs @ ''}'') = Some (TNumber (c # cs), ''}'')"
    using pt dq f(2) by (simp add: next_token_def)
  have "lex (c # cs @ ''}'') = cons_token (TNumber (c # cs)) (lex ''}'')"
    using sp nt by (subst lex.simps) simp
  then show ?thesis using f(1) by (simp add: lex_rbrace cons_token_def del: lex.simps)
qed

lemma lex_token:
  "\<not> isSpace c \<Longrightarrow> next_token c cs = Some (t, rest) \<Longrightarrow> lex (c # cs) = cons_token t (lex rest)"
  by (subst lex.simps) simp

lemma lex_punct:
  "punct_token c = Some t \<Longrightarrow> \<not> isSpace c \<Longrightarrow> lex (c # cs) = cons_token t (lex cs)"
  by (subst lex.simps) (simp add: next_token_def)

lemma lex_marshal_Account:
  "lex (marshal_Account a) =
     Some [TLBrace, TString ''Balance'', TColon, TNumber (FormatInt (sint (Balance a))), TRBrace]"
proof -
  let ?n = "FormatInt (sint (Balance a))"
  have 1: "lex (CHR '':'' # ?n @ ''}'') = Some [TColon, TNumber ?n, TRBrace]"
    by (subst lex_punct [where t = TColon])
      (simp_all add: punct_token_def isSpace_def lex_number_rbrace cons_token_def del: lex.simps)
  have "next_token dquote (''Balance'' @ dquote # CHR '':'' # ?n @ ''}'') =
          Some (TString ''Balance'', CHR '':'' # ?n @ ''}'')"
    unfolding next_token_def scan_string_Balance
    by (simp add: punct_token_def)
  then have "lex (dquote # ''Balance'' @ dquote # CHR '':'' # ?n @ ''}'') =
          cons_token (TString ''Balance'') (lex (CHR '':'' # ?n @ ''}''))"
    by (rule lex_token [rotated]) (simp add: isSpace_def)
  then have 2: "lex (dquote # ''Balance'' @ dquote # CHR '':'' # ?n @ ''}'') =
          Some [TString ''Balance'', TColon, TNumber ?n, TRBrace]"
    by (simp only: 1 cons_token_def option.map)
  have 3: "lex (CHR ''{'' # cs) = cons_token TLBrace (lex cs)" for cs
    by (rule lex_punct) (simp_all add: punct_token_def isSpace_def)
  have eq: "marshal_Account a = CHR ''{'' # dquote # ''Balance'' @ dquote # CHR '':'' # ?n @ ''}''"
    by (simp add: marshal_Account_def)
  show ?thesis
    unfolding eq 3 2 by (simp add: cons_token_def)
qed

lemma parse_encoded_tokens:
  "parse_tokens (Parsing [] EValue) [TLBrace, TString ''Balance'', TColon, TNumber s, TRBrace] =
     Some (JObject [(''Balance'', JNumber s)])"
  by (simp add: pstep_def wants_value_def)

lemma parse_json_marshal_Account:
  "parse_json (marshal_Account a) =
     Some (JObject [(''Balance'', JNumber (FormatInt (sint (Balance a))))])"
  unfolding parse_json_def lex_marshal_Account by (simp only: option.case parse_encoded_tokens)

lemma unquote_ascii_Balance: "unquote_ascii ''Balance'' = Some ''Balance''"
  by simp

lemma is_Balance_key_Balance: "is_Balance_key ''Balance''"
  unfolding is_Balance_key_def unquote_ascii_Balance by simp

lemma decode_marshal_Account: "decode a (marshal_Account r) = (None, a\<lparr>Balance := Balance r\<rparr>)"
  unfolding decode_def Unmarshal_def parse_json_marshal_Account
  by (simp add: is_Balance_key_Balance set_Balance_def ParseInt64_FormatInt saveError_def)

text \<open>
  Claim C6. For every account record \<open>r\<close> (every signed 64-bit balance) encoding succeeds,
  and decoding the encoded bytes into any record yields exactly \<open>r\<close>, without error.
\<close>

theorem decode_encode_roundtrip:
  "\<exists>b. encode r = Inr b \<and> decode a b = (None, r)"
  by (simp add: encode_def decode_marshal_Account)

subsection \<open>Which inputs decode\<close>

lemma decode_empty_object: "decode a ''{}'' = (None, a)"
  by (simp add: decode_def Unmarshal_def parse_json_def isSpace_def next_token_def punct_token_def
      cons_token_def pstep_def wants_value_def)

lemma decode_null: "decode a ''null'' = (None, a)"
  by (simp add: decode_def Unmarshal_def parse_json_def isSpace_def next_token_def punct_token_def
      cons_token_def pstep_def wants_value_def literal_token_def is_digit_def)


lemma set_Balance_ok: "fst (set_Balance v a) = None \<longleftrightarrow> storable v"
  by (auto simp: set_Balance_def storable_def split: json.splits option.splits)

lemma unmarshal_members_saved:
  "fst (unmarshal_members ms (Some e, a)) = Some e"
  by (induction ms arbitrary: a) (auto simp: saveError_def split: prod.splits)

lemma unmarshal_members_ok:
  "fst (unmarshal_members ms (None, a)) = None
     \<longleftrightarrow> list_all (\<lambda>(k, v). is_Balance_key k \<longrightarrow> storable v) ms"
proof (induction ms arbitrary: a)
  case Nil
  then show ?case by simp
next
  case (Cons m ms)
  obtain k v where m: "m = (k, v)" by (cases m)
  show ?case
  proof (cases "is_Balance_key k")
    case False
    with Cons m show ?thesis by simp
  next
    case True
    obtain err a' where s: "set_Balance v a = (err, a')" by (cases "set_Balance v a")
    show ?thesis
    proof (cases err)
      case None
      with s have "storable v" using set_Balance_ok [of v a] by simp
      with Cons [of a'] m True s None show ?thesis by (simp add: saveError_def)
    next
      case (Some e)
      with s have "\<not> storable v" using set_Balance_ok [of v a] by simp
      with m True s Some show ?thesis
        by (simp add: saveError_def unmarshal_members_saved)
    qed
  qed
qed

lemma unmarshal_members_no_Balance:
  "list_all (\<lambda>(k, v). \<not> is_Balance_key k) ms \<Longrightarrow> unmarshal_members ms r = r"
  by (induction ms arbitrary: r) (auto split: prod.splits)

lemma parse_json_empty_object: "parse_json ''{}'' = Some (JObject [])"
  by (simp add: parse_json_def isSpace_def next_token_def punct_token_def
      cons_token_def pstep_def wants_value_def)

lemma parse_json_garbage: "parse_json ''garbage'' = None"
  by (simp add: parse_json_def isSpace_def next_token_def punct_token_def
      cons_token_def literal_token_def is_digit_def)

text \<open>
  Claim C3, as the code has it. \<^verbatim>\<open>decode\<close> is \<^verbatim>\<open>json.Unmarshal\<close> into the struct. It
  succeeds exactly when the bytes are well-formed JSON whose value is \<^verbatim>\<open>null\<close>, or an object
  in which every member named \<^verbatim>\<open>Balance\<close> (ASCII case-insensitively) holds \<^verbatim>\<open>null\<close> or an
  integer literal within the 64-bit signed range. Bytes that are not well-formed JSON
  (among them the empty value read for an absent key) always fail with a syntax error. An
  object without a \<^verbatim>\<open>Balance\<close> member and the literal \<^verbatim>\<open>null\<close> decode without error and
  leave the record as it was, balance 0 in a fresh record.
\<close>

theorem decode_succeeds_iff:
  "(fst (decode a b) = None \<longleftrightarrow>
      (case parse_json b of
         None \<Rightarrow> False
       | Some JNull \<Rightarrow> True
       | Some (JObject ms) \<Rightarrow> list_all (\<lambda>(k, v). is_Balance_key k \<longrightarrow> storable v) ms
       | Some v \<Rightarrow> False))
   \<and> (parse_json b = None \<longrightarrow> decode a b = (Some SyntaxError, a))
   \<and> (parse_json b = Some JNull \<longrightarrow> decode a b = (None, a))
   \<and> (\<forall>ms. parse_json b = Some (JObject ms) \<and> list_all (\<lambda>(k, v). \<not> is_Balance_key k) ms
          \<longrightarrow> decode a b = (None, a))"
  by (simp add: decode_def Unmarshal_def unmarshal_members_ok unmarshal_members_no_Balance
      split: option.splits json.splits)

theorem decode_succeeds_iff_witness:
  "parse_json ''{}'' = Some (JObject [])
   \<and> list_all (\<lambda>(k, v). \<not> is_Balance_key k) ([] :: (string \<times> json) list)
   \<and> decode \<lparr>Balance = 0\<rparr> ''{}'' = (None, \<lparr>Balance = 0\<rparr>)
   \<and> parse_json ''garbage'' = None
   \<and> decode \<lparr>Balance = 0\<rparr> ''garbage'' = (Some SyntaxError, \<lparr>Balance = 0\<rparr>)"
  using decode_succeeds_iff [of "\<lparr>Balance = 0\<rparr>" "''{}''"]
    decode_succeeds_iff [of "\<lparr>Balance = 0\<rparr>" "''garbage''"]
    parse_json_empty_object parse_json_garbage
  by simp

text \<open>
  Claim C3 as stated fails on \<^verbatim>\<open>{}\<close>: the bytes hold no balance field, yet decoding
  succeeds and the record keeps the default balance 0.
\<close>

theorem decode_empty_object_counterexample:
  "decode \<lparr>Balance = 0\<rparr> ''{}'' = (None, \<lparr>Balance = 0\<rparr>)"
  by (rule decode_empty_object)

section \<open>The store, the transfer and the monitor\<close>

lemma kv_next_fault: "kv (snd (next_fault d)) = kv d"
  by (simp add: next_fault_def split: list.splits)

lemma kv_Scan: "kv (snd (Scan start stop maxRows d)) = kv d"
  by (simp add: Scan_def next_fault_def split: list.splits option.splits)

lemma kv_sumAllAccounts: "kv (db (snd (sumAllAccounts bank))) = kv (db bank)"
proof -
  obtain scan tx' where s: "Scan (makeAccountID 0) (makeAccountID (numAccounts bank))
      (word_of_int (numAccounts bank)) (db bank) = (scan, tx')"
    by (cases "Scan (makeAccountID 0) (makeAccountID (numAccounts bank))
      (word_of_int (numAccounts bank)) (db bank)")
  then have k: "kv tx' = kv (db bank)"
    using kv_Scan [of "makeAccountID 0" "makeAccountID (numAccounts bank)"
        "word_of_int (numAccounts bank)" "db bank"] by simp
  have k2: "kv (snd (next_fault tx')) = kv (db bank)"
    using k by (simp add: kv_next_fault)
  show ?thesis
    using k k2
    by (cases "next_fault tx'")
      (auto simp: sumAllAccounts_def Tx_def s split: sum.splits option.splits prod.splits)
qed

lemma next_fault_kv: "next_fault d = (f, d1) \<Longrightarrow> kv d1 = kv d"
  using kv_next_fault [of d] by simp

lemma Run_Get:
  "next_fault d = (None, d1) \<Longrightarrow>
   Run [Get ks] d = ((None, [\<lparr>Rows = map (\<lambda>k. (k, kv_get (kv d) k)) ks, Err = None\<rparr>]), d1)"
  by (frule next_fault_kv) (simp add: Run_def)

lemma transferMoney_read_fault:
  "next_fault d = (Some e, d1) \<Longrightarrow> transferMoney from to amt d = (Some e, d1)"
  by (simp add: transferMoney_def Run_def)

lemma transferMoney_read_ok:
  "next_fault d = (None, d1) \<Longrightarrow>
   transferMoney from to amt d =
    (case decode \<lparr>Balance = 0\<rparr> (kv_get (kv d) from) of
       (Some err, fa) \<Rightarrow> (Some err, d1)
     | (None, fa) \<Rightarrow>
         if Balance fa <s amt then (None, d1)
         else (case decode \<lparr>Balance = 0\<rparr> (kv_get (kv d) to) of
                 (Some err, ta) \<Rightarrow> (Some err, d1)
               | (None, ta) \<Rightarrow>
                   (case Run [Put (marshal_Account (fa\<lparr>Balance := Balance fa - amt\<rparr>))
                                  (marshal_Account (ta\<lparr>Balance := Balance ta + amt\<rparr>))] d1 of
                      ((err, rs), d2) \<Rightarrow> (err, d2))))"
  by (simp add: transferMoney_def Run_Get row_value_def encode_def
      split: prod.splits option.splits sum.splits)

lemma makeAccountID_small:
  "makeAccountID 0 = ''000000000''" "makeAccountID 1 = ''000000001''"
  "makeAccountID 2 = ''000000002''" "makeAccountID 3 = ''000000003''"
  by code_simp+

lemma ledger3: "ledger [a, b, c] =
  [(''000000000'', marshal_Account \<lparr>Balance = a\<rparr>),
   (''000000001'', marshal_Account \<lparr>Balance = b\<rparr>),
   (''000000002'', marshal_Account \<lparr>Balance = c\<rparr>)]"
  by (simp add: ledger_def makeAccountID_small)

lemma ledger2: "ledger [a, b] =
  [(''000000000'', marshal_Account \<lparr>Balance = a\<rparr>),
   (''000000001'', marshal_Account \<lparr>Balance = b\<rparr>)]"
  by (simp add: ledger_def makeAccountID_small)

lemma Scan_ledger2_of_3:
  "Scan (makeAccountID 0) (makeAccountID 3) (word_of_int 3)
      \<lparr>kv = ledger [a, b], faults = []\<rparr> =
    (\<lparr>Rows = ledger [a, b], Err = None\<rparr>, \<lparr>kv = ledger [a, b], faults = []\<rparr>)"
  by (simp add: Scan_def next_fault_def ledger2 makeAccountID_small)

lemma Scan_ledger3:
  "Scan (makeAccountID 0) (makeAccountID 3) (word_of_int 3)
      \<lparr>kv = ledger [a, b, c], faults = []\<rparr> =
    (\<lparr>Rows = ledger [a, b, c], Err = None\<rparr>, \<lparr>kv = ledger [a, b, c], faults = []\<rparr>)"
  by (simp add: Scan_def next_fault_def ledger3 makeAccountID_small)

lemma sumAllAccounts_ledger3:
  "sumAllAccounts (bank_of [a, b, c]) = (Inr (a + b + c), bank_of [a, b, c])"
proof -
  have s: "sum_rows (ledger [a, b, c]) 0 = Inr (a + b + c)"
    by (simp add: ledger3 decode_marshal_Account)
  show ?thesis
    using Scan_ledger3 [of a b c]
    by (simp add: sumAllAccounts_def Tx_def bank_of_def sumAllAccounts_tx_def s next_fault_def)
      (simp add: ledger3)
qed

text \<open>
  Claim C10. The balance-summing scan treats every row count different from
  \<open>numAccounts\<close> as fatal, more rows as well as fewer: the body of the transaction in
  \<^verbatim>\<open>sumAllAccounts\<close> ends the process (with the scan error if the scan failed, otherwise
  with the message "Could only read ... rows") and no sum is computed.
\<close>

theorem sumAllAccounts_row_count_mismatch:
  assumes "int (length (Rows scan)) \<noteq> n"
  shows "sumAllAccounts_tx n scan =
    Inl (case Err scan of Some e \<Rightarrow> Fatal e | None \<Rightarrow> FatalRows (length (Rows scan)) n)"
  using assms by (simp add: sumAllAccounts_tx_def split: option.splits)

theorem sumAllAccounts_row_count_mismatch_witness:
  "int (length (Rows \<lparr>Rows = [(''000000000'', ''x''), (''000000001'', ''x''),
        (''000000002'', ''x''), (''000000003'', ''x'')], Err = None\<rparr>)) \<noteq> 3
   \<and> sumAllAccounts_tx 3 \<lparr>Rows = [(''000000000'', ''x''), (''000000001'', ''x''),
        (''000000002'', ''x''), (''000000003'', ''x'')], Err = None\<rparr> = Inl (FatalRows 4 3)"
  using sumAllAccounts_row_count_mismatch [of "\<lparr>Rows = [(''000000000'', ''x''), (''000000001'', ''x''),
        (''000000002'', ''x''), (''000000003'', ''x'')], Err = None\<rparr>" 3]
  by simp

text \<open>
  Claim C8. When the full-range scan of the monitor succeeds but returns fewer rows than
  \<open>numAccounts\<close>, \<^verbatim>\<open>sumAllAccounts\<close> ends the process with the message "Could only read
  \<open>len\<close> of \<open>numAccounts\<close> rows" (the incomplete-scan failure) and returns no sum.
\<close>

theorem sumAllAccounts_incomplete_scan:
  assumes "Scan (makeAccountID 0) (makeAccountID (numAccounts bank))
             (word_of_int (numAccounts bank)) (db bank) = (scan, d')"
    and "Err scan = None"
    and "int (length (Rows scan)) < numAccounts bank"
  shows "fst (sumAllAccounts bank) = Inl (FatalRows (length (Rows scan)) (numAccounts bank))"
  using assms by (simp add: sumAllAccounts_def Tx_def sumAllAccounts_tx_def)

theorem sumAllAccounts_incomplete_scan_witness:
  "Scan (makeAccountID 0) (makeAccountID (numAccounts ((bank_of [1000, 1000])\<lparr>numAccounts := 3\<rparr>)))
       (word_of_int (numAccounts ((bank_of [1000, 1000])\<lparr>numAccounts := 3\<rparr>)))
       (db ((bank_of [1000, 1000])\<lparr>numAccounts := 3\<rparr>))
     = (\<lparr>Rows = ledger [1000, 1000], Err = None\<rparr>, \<lparr>kv = ledger [1000, 1000], faults = []\<rparr>)
   \<and> Err \<lparr>Rows = ledger [1000, 1000], Err = None\<rparr> = None
   \<and> int (length (Rows \<lparr>Rows = ledger [1000, 1000], Err = None\<rparr>))
        < numAccounts ((bank_of [1000, 1000])\<lparr>numAccounts := 3\<rparr>)
   \<and> fst (sumAllAccounts ((bank_of [1000, 1000])\<lparr>numAccounts := 3\<rparr>)) = Inl (FatalRows 2 3)"
proof -
  let ?b = "(bank_of [1000, 1000])\<lparr>numAccounts := 3\<rparr>"
  let ?r = "\<lparr>Rows = ledger [1000, 1000], Err = None\<rparr>"
  have 1: "Scan (makeAccountID 0) (makeAccountID (numAccounts ?b)) (word_of_int (numAccounts ?b)) (db ?b)
      = (?r, \<lparr>kv = ledger [1000, 1000], faults = []\<rparr>)"
    using Scan_ledger2_of_3 [of 1000 1000] by (simp add: bank_of_def)
  have 2: "Err ?r = None" by simp
  have 3: "int (length (Rows ?r)) < numAccounts ?b" by (simp add: ledger2)
  have 4: "length (Rows ?r) = 2" by (simp add: ledger2)
  from sumAllAccounts_incomplete_scan [OF 1 2 3] 1 2 3 4 show ?thesis by simp
qed

lemma sum_rows_total:
  "sum_rows rows acc = Inr t \<Longrightarrow>
   t = acc + sum_list (map (\<lambda>(k, v). Balance (snd (decode \<lparr>Balance = 0\<rparr> v))) rows)"
proof (induction rows arbitrary: acc)
  case Nil
  then show ?case by simp
next
  case (Cons r rows)
  obtain k v where r: "r = (k, v)" by (cases r)
  obtain err a where d: "decode \<lparr>Balance = 0\<rparr> v = (err, a)"
    by (cases "decode \<lparr>Balance = 0\<rparr> v")
  from Cons.prems r d have e: "err = None" by (cases err) simp_all
  with Cons.prems r d have "sum_rows rows (acc + Balance a) = Inr t" by simp
  from Cons.IH [OF this] r d show ?case by (simp add: add.assoc)
qed

text \<open>
  Claim C5. Given the total that \<^verbatim>\<open>sumAllAccounts\<close> read in one snapshot, one round of
  \<^verbatim>\<open>periodicallyCheckBalances\<close> ends the process reporting that total exactly when it
  differs from \<^verbatim>\<open>int64(numAccounts) * initCash\<close> (64-bit arithmetic); when it matches, the
  round prints the success line and the loop goes on with the next round; the stored
  accounts are the same after the check as before.
\<close>

theorem checkBalances_fatal_iff_mismatch:
  assumes "sumAllAccounts bank = (Inr totalAmount, bank')"
  shows "(snd (checkBalances initCash bank) = Inl (FatalTotal totalAmount)
            \<longleftrightarrow> totalAmount \<noteq> word_of_int (numAccounts bank) * initCash)
    \<and> (totalAmount = word_of_int (numAccounts bank) * initCash \<longrightarrow>
          checkBalances initCash bank =
            ([TransfersExecuted (numTransfers bank), BankInGoodOrder], Inr bank')
          \<and> periodicallyCheckBalances (Suc k) initCash bank =
            (case periodicallyCheckBalances k initCash bank' of
               (out, r) \<Rightarrow> ([TransfersExecuted (numTransfers bank), BankInGoodOrder] @ out, r)))
    \<and> kv (db bank') = kv (db bank)"
proof -
  have "kv (db bank') = kv (db bank)"
    using kv_sumAllAccounts [of bank] assms by simp
  then show ?thesis
    using assms by (simp add: checkBalances_def)
qed

theorem checkBalances_fatal_iff_mismatch_witness:
  "sumAllAccounts (bank_of [900, 1000, 1000]) = (Inr 2900, bank_of [900, 1000, 1000])
   \<and> checkBalances 1000 (bank_of [900, 1000, 1000]) = ([TransfersExecuted 0], Inl (FatalTotal 2900))
   \<and> sumAllAccounts (bank_of [1000, 1000, 1000]) = (Inr 3000, bank_of [1000, 1000, 1000])
   \<and> checkBalances 1000 (bank_of [1000, 1000, 1000]) =
        ([TransfersExecuted 0, BankInGoodOrder], Inr (bank_of [1000, 1000, 1000]))"
proof -
  have 1: "sumAllAccounts (bank_of [900, 1000, 1000]) = (Inr 2900, bank_of [900, 1000, 1000])"
    using sumAllAccounts_ledger3 [of 900 1000 1000] by simp
  have 2: "sumAllAccounts (bank_of [1000, 1000, 1000]) = (Inr 3000, bank_of [1000, 1000, 1000])"
    using sumAllAccounts_ledger3 [of 1000 1000 1000] by simp
  have n: "numAccounts (bank_of [a, b, c]) = 3" "numTransfers (bank_of [a, b, c]) = 0" for a b c
    by (simp_all add: bank_of_def)
  have 3: "checkBalances 1000 (bank_of [900, 1000, 1000]) = ([TransfersExecuted 0], Inl (FatalTotal 2900))"
    using checkBalances_fatal_iff_mismatch [OF 1, of 1000 0]
    by (simp add: n checkBalances_def 1)
  from checkBalances_fatal_iff_mismatch [OF 2, of 1000 0] 1 2 3
  show ?thesis by (simp add: n)
qed

text \<open>
  Claim C4. If the read of a transfer attempt succeeds, the source record decodes, and the
  chosen amount exceeds the source balance (for example balance 50, amount 75), then
  \<^verbatim>\<open>transferMoney\<close> returns no error and writes nothing: the store, and with it both
  balances, is exactly what it was before the attempt.
\<close>

theorem transferMoney_insufficient_funds:
  assumes "fst (next_fault d) = None"
    and "decode \<lparr>Balance = 0\<rparr> (kv_get (kv d) from) = (None, fromAccount)"
    and "Balance fromAccount <s exchangeAmount"
  shows "fst (transferMoney from to exchangeAmount d) = None
    \<and> kv (snd (transferMoney from to exchangeAmount d)) = kv d"
proof -
  obtain d1 where nf: "next_fault d = (None, d1)"
    using assms(1) by (cases "next_fault d") simp
  then have "transferMoney from to exchangeAmount d = (None, d1)"
    using assms(2,3) by (simp add: transferMoney_read_ok)
  with next_fault_kv [OF nf] show ?thesis by simp
qed

theorem transferMoney_insufficient_funds_witness:
  "fst (next_fault (db (bank_of [50, 50]))) = None
   \<and> decode \<lparr>Balance = 0\<rparr> (kv_get (kv (db (bank_of [50, 50]))) (makeAccountID 0)) = (None, \<lparr>Balance = 50\<rparr>)
   \<and> (50 :: 64 word) <s 75
   \<and> fst (transferMoney (makeAccountID 0) (makeAccountID 1) 75 (db (bank_of [50, 50]))) = None
   \<and> kv (snd (transferMoney (makeAccountID 0) (makeAccountID 1) 75 (db (bank_of [50, 50]))))
       = kv (db (bank_of [50, 50]))"
proof -
  have 1: "fst (next_fault (db (bank_of [50, 50]))) = None"
    by (simp add: bank_of_def next_fault_def)
  have 2: "decode \<lparr>Balance = 0\<rparr> (kv_get (kv (db (bank_of [50, 50]))) (makeAccountID 0)) = (None, \<lparr>Balance = 50\<rparr>)"
    by (simp add: bank_of_def ledger2 makeAccountID_small decode_marshal_Account)
  have 3: "(50 :: 64 word) <s 75" by simp
  from transferMoney_insufficient_funds
    [of "db (bank_of [50, 50])" "makeAccountID 0" "\<lparr>Balance = 50\<rparr>" 75 "makeAccountID 1"] 1 2 3
  show ?thesis by simp
qed

section \<open>Transfers\<close>

lemma zero_pad_digits_Cons: "\<exists>c cs. zero_pad w (digits n) = c # cs \<and> is_digit c"
proof -
  obtain d ds where d: "digits n = d # ds" "is_digit d"
    using digits_Cons [of n] by auto
  show ?thesis
  proof (cases "w - length (digits n)")
    case 0
    with d show ?thesis by (simp add: zero_pad_def)
  next
    case (Suc k)
    then show ?thesis by (simp add: zero_pad_def is_digit_def)
  qed
qed

lemma makeAccountID_Cons: "\<exists>c cs. makeAccountID i = c # cs \<and> (c = CHR ''-'' \<or> is_digit c)"
  using zero_pad_digits_Cons [of 9 "nat i"]
  by (auto simp: makeAccountID_def sprintf_09d_def)

lemma makeAccountID_not_marshal: "makeAccountID i \<noteq> marshal_Account a"
proof -
  obtain c cs where c: "makeAccountID i = c # cs" "c = CHR ''-'' \<or> is_digit c"
    using makeAccountID_Cons [of i] by auto
  then have "c \<noteq> CHR ''{''" by (auto simp: is_digit_def)
  with c show ?thesis by (simp add: marshal_Account_def)
qed

lemma kv_get_kv_put: "kv_get (kv_put k v s) k' = (if k' = k then v else kv_get s k')"
  by (induction s) auto

lemma transferMoney_kv:
  "kv (snd (transferMoney from to amt d)) = kv d
   \<or> (\<exists>fa ta. kv (snd (transferMoney from to amt d))
                 = kv_put (marshal_Account fa) (marshal_Account ta) (kv d))"
proof (cases "next_fault d")
  case (Pair f d1)
  note nf = this
  show ?thesis
  proof (cases f)
    case (Some e)
    with nf show ?thesis
      using transferMoney_read_fault [of d e d1 "from" to amt] next_fault_kv [of d f d1] by simp
  next
    case None
    have k1: "kv d1 = kv d" using nf by (rule next_fault_kv)
    have put: "kv (snd (Run [Put k v] d1)) = kv d \<or> kv (snd (Run [Put k v] d1)) = kv_put k v (kv d)" for k v
    proof (cases "next_fault d1")
      case (Pair f2 d2)
      then have "kv d2 = kv d" using next_fault_kv [of d1 f2 d2] k1 by simp
      with Pair show ?thesis by (cases f2) (simp_all add: Run_def)
    qed
    have rd: "next_fault d = (None, d1)" using nf None by simp
    obtain ef fa where df: "decode \<lparr>Balance = 0\<rparr> (kv_get (kv d) from) = (ef, fa)"
      by (cases "decode \<lparr>Balance = 0\<rparr> (kv_get (kv d) from)")
    obtain et ta where dt: "decode \<lparr>Balance = 0\<rparr> (kv_get (kv d) to) = (et, ta)"
      by (cases "decode \<lparr>Balance = 0\<rparr> (kv_get (kv d) to)")
    show ?thesis
    proof (cases "ef = None \<and> \<not> Balance fa <s amt \<and> et = None")
      case False
      then have "snd (transferMoney from to amt d) = d1"
        using df dt by (auto simp: transferMoney_read_ok [OF rd] split: option.splits)
      with k1 show ?thesis by simp
    next
      case True
      then have "snd (transferMoney from to amt d) =
          snd (Run [Put (marshal_Account (fa\<lparr>Balance := Balance fa - amt\<rparr>))
                        (marshal_Account (ta\<lparr>Balance := Balance ta + amt\<rparr>))] d1)"
        using df dt by (simp add: transferMoney_read_ok [OF rd] split: prod.splits)
      with put [of "marshal_Account (fa\<lparr>Balance := Balance fa - amt\<rparr>)"
          "marshal_Account (ta\<lparr>Balance := Balance ta + amt\<rparr>)"]
      show ?thesis by auto
    qed
  qed
qed

lemma account_balance_transferMoney:
  "account_balance (kv (snd (transferMoney from to amt d))) i = account_balance (kv d) i"
  using transferMoney_kv [of "from" to amt d] makeAccountID_not_marshal [of i]
  by (auto simp: account_balance_def kv_get_kv_put)

lemma accounts_nonneg_transferMoney:
  "accounts_nonneg n (kv (snd (transferMoney from to amt d))) = accounts_nonneg n (kv d)"
  by (simp add: accounts_nonneg_def account_balance_transferMoney)

lemma transferMoney_skip:
  assumes "next_fault d = (None, d1)"
    and "decode \<lparr>Balance = 0\<rparr> (kv_get (kv d) from) = (None, fromAccount)"
    and "Balance fromAccount <s exchangeAmount"
  shows "transferMoney from to exchangeAmount d = (None, d1)"
  using assms by (simp add: transferMoney_read_ok)

lemma kv_get_ledger3:
  "kv_get (ledger [a, b, c]) (makeAccountID 0) = marshal_Account \<lparr>Balance = a\<rparr>"
  "kv_get (ledger [a, b, c]) (makeAccountID 1) = marshal_Account \<lparr>Balance = b\<rparr>"
  "kv_get (ledger [a, b, c]) (makeAccountID 2) = marshal_Account \<lparr>Balance = c\<rparr>"
  by (simp_all add: ledger3 makeAccountID_small)

lemma account_balance_ledger3:
  "account_balance (ledger [a, b, c]) 0 = Inr a"
  "account_balance (ledger [a, b, c]) 1 = Inr b"
  "account_balance (ledger [a, b, c]) 2 = Inr c"
  by (simp_all add: account_balance_def kv_get_ledger3 decode_marshal_Account)

lemma upt_3: "[0 ..< 3] = [0, 1, 2]"
  by (simp add: upt_rec)

lemma accounts_nonneg_ledger3:
  "accounts_nonneg 3 (ledger [a, b, c]) = (0 \<le>s a \<and> 0 \<le>s b \<and> 0 \<le>s c)"
  using account_balance_ledger3 [of a b c]
  by (simp add: accounts_nonneg_def upt_3)

text \<open>
  Claim C9. If every account record holds a balance \<open>\<ge> 0\<close> before \<^verbatim>\<open>transferMoney\<close> runs,
  every account record holds a balance \<open>\<ge> 0\<close> after it, whatever the outcome; and when the
  read succeeds and subtracting the amount would take the source balance below zero, the
  attempt leaves the store as it was. (The write of \<^verbatim>\<open>transferMoney\<close> is issued under the
  encoded source record as key, which is never an account identifier, so the records under
  the account identifiers are the same before and after; see Scenario A below.)
\<close>

theorem transferMoney_preserves_nonneg:
  assumes "accounts_nonneg n (kv d)"
  shows "accounts_nonneg n (kv (snd (transferMoney from to exchangeAmount d)))
    \<and> (\<forall>fromAccount.
          fst (next_fault d) = None
          \<and> decode \<lparr>Balance = 0\<rparr> (kv_get (kv d) from) = (None, fromAccount)
          \<and> sint (Balance fromAccount) - sint exchangeAmount < 0
          \<longrightarrow> kv (snd (transferMoney from to exchangeAmount d)) = kv d)"
proof -
  have "kv (snd (transferMoney from to exchangeAmount d)) = kv d"
    if a: "fst (next_fault d) = None"
      "decode \<lparr>Balance = 0\<rparr> (kv_get (kv d) from) = (None, fromAccount)"
      "sint (Balance fromAccount) - sint exchangeAmount < 0" for fromAccount
  proof -
    obtain d1 where nf: "next_fault d = (None, d1)"
      using a(1) by (cases "next_fault d") simp
    have "Balance fromAccount <s exchangeAmount"
      using a(3) by (simp add: word_sless_alt)
    then have "transferMoney from to exchangeAmount d = (None, d1)"
      using nf a(2) by (rule transferMoney_skip [rotated 2])
    with next_fault_kv [OF nf] show ?thesis by simp
  qed
  with assms show ?thesis
    by (simp add: accounts_nonneg_transferMoney)
qed

theorem transferMoney_preserves_nonneg_witness:
  "accounts_nonneg 3 (kv (db (bank_of [1000, 1000, 1000])))
   \<and> accounts_nonneg 3 (kv (snd (transferMoney (makeAccountID 0) (makeAccountID 1) 100
        (db (bank_of [1000, 1000, 1000])))))
   \<and> fst (next_fault (db (bank_of [50, 1000, 1000]))) = None
   \<and> decode \<lparr>Balance = 0\<rparr> (kv_get (kv (db (bank_of [50, 1000, 1000]))) (makeAccountID 0))
       = (None, \<lparr>Balance = 50\<rparr>)
   \<and> sint (Balance \<lparr>Balance = 50\<rparr>) - sint (75 :: 64 word) < 0
   \<and> kv (snd (transferMoney (makeAccountID 0) (makeAccountID 1) 75 (db (bank_of [50, 1000, 1000]))))
       = kv (db (bank_of [50, 1000, 1000]))"
proof -
  have 1: "accounts_nonneg 3 (kv (db (bank_of [1000, 1000, 1000])))"
    by (simp add: bank_of_def accounts_nonneg_ledger3 word_sle_eq)
  have 2: "accounts_nonneg 3 (kv (db (bank_of [50, 1000, 1000])))"
    by (simp add: bank_of_def accounts_nonneg_ledger3 word_sle_eq)
  have 3: "fst (next_fault (db (bank_of [50, 1000, 1000]))) = None"
    by (simp add: bank_of_def next_fault_def)
  have 4: "decode \<lparr>Balance = 0\<rparr> (kv_get (kv (db (bank_of [50, 1000, 1000]))) (makeAccountID 0))
       = (None, \<lparr>Balance = 50\<rparr>)"
    by (simp add: bank_of_def kv_get_ledger3 decode_marshal_Account)
  have 5: "sint (Balance \<lparr>Balance = 50\<rparr>) - sint (75 :: 64 word) < 0" by simp
  from transferMoney_preserves_nonneg [OF 1, of "makeAccountID 0" "makeAccountID 1" 100]
    transferMoney_preserves_nonneg [OF 2, of "makeAccountID 0" "makeAccountID 1" 75] 1 3 4 5
  show ?thesis by blast
qed











lemma kv_put_marshal_ledger3:
  "kv_put (marshal_Account x) v (ledger [a, b, c]) = ledger [a, b, c] @ [(marshal_Account x, v)]"
  by (simp add: ledger3 marshal_Account_def)

lemma initBankAccounts_3:
  "initBankAccounts cash \<lparr>db = \<lparr>kv = [], faults = []\<rparr>, numAccounts = 3, numTransfers = 0\<rparr>
     = Inr (bank_of [cash, cash, cash])"
  by (simp add: initBankAccounts_def encode_def upt_3 Run_def next_fault_def
      makeAccountID_small bank_of_def ledger3)

lemma transferMoney_scenario_A:
  "transferMoney (makeAccountID 0) (makeAccountID 1) 100 (db (bank_of [1000, 1000, 1000])) =
    (None, \<lparr>kv = ledger [1000, 1000, 1000]
               @ [(marshal_Account \<lparr>Balance = 900\<rparr>, marshal_Account \<lparr>Balance = 1100\<rparr>)],
            faults = []\<rparr>)"
proof -
  have nf: "next_fault (db (bank_of [1000, 1000, 1000])) = (None, db (bank_of [1000, 1000, 1000]))"
    by (simp add: next_fault_def bank_of_def)
  show ?thesis
    unfolding transferMoney_read_ok [OF nf]
    by (simp add: bank_of_def kv_get_ledger3 decode_marshal_Account word_sless_alt
        Run_def next_fault_def kv_put_marshal_ledger3)
qed

text \<open>
  No transfer changes the balance stored under an account identifier
  (\<open>account_balance_transferMoney\<close> above, for every source, destination, amount and
  store). Scenario A is the instance the specification gives.
\<close>

text \<open>
  Claim C1 (Scenario A), evaluated on the code. Three accounts of balance 1000, transfer of
  100 from account 0 to account 1. \<^verbatim>\<open>batchWrite.Put(fromValue, toValue)\<close> stores the encoded
  destination record under the encoded source record as key: the store gains the pair
  \<^verbatim>\<open>{"Balance":900}\<close> \<open>\<mapsto>\<close> \<^verbatim>\<open>{"Balance":1100}\<close>, and the balances under the three account
  identifiers are still 1000, 1000, 1000 instead of 900, 1100, 1000.
\<close>

theorem scenario_A_accounts_not_updated:
  "transfer_attempt True 0 1 100 (bank_of [1000, 1000, 1000]) =
     Inr \<lparr>db = \<lparr>kv = ledger [1000, 1000, 1000]
                    @ [(marshal_Account \<lparr>Balance = 900\<rparr>, marshal_Account \<lparr>Balance = 1100\<rparr>)],
                 faults = []\<rparr>,
          numAccounts = 3, numTransfers = 1\<rparr>
   \<and> map (account_balance (ledger [1000, 1000, 1000]
             @ [(marshal_Account \<lparr>Balance = 900\<rparr>, marshal_Account \<lparr>Balance = 1100\<rparr>)]))
        [0, 1, 2] = [Inr 1000, Inr 1000, Inr 1000]"
proof -
  have ne: "makeAccountID 0 \<noteq> makeAccountID 1" by (simp add: makeAccountID_small)
  have 1: "transfer_attempt True 0 1 100 (bank_of [1000, 1000, 1000]) =
     Inr \<lparr>db = \<lparr>kv = ledger [1000, 1000, 1000]
                    @ [(marshal_Account \<lparr>Balance = 900\<rparr>, marshal_Account \<lparr>Balance = 1100\<rparr>)],
                 faults = []\<rparr>,
          numAccounts = 3, numTransfers = 1\<rparr>"
    using ne by (simp add: transfer_attempt_def Tx_def transferMoney_scenario_A next_fault_def)
      (simp add: bank_of_def)
  have 2: "account_balance (ledger [1000, 1000, 1000]
             @ [(marshal_Account \<lparr>Balance = 900\<rparr>, marshal_Account \<lparr>Balance = 1100\<rparr>)]) i
      = account_balance (ledger [1000, 1000, 1000]) i" for i
    using makeAccountID_not_marshal [of i "\<lparr>Balance = 900\<rparr>"]
    by (simp add: account_balance_def kv_put_marshal_ledger3 [symmetric] kv_get_kv_put)
  show ?thesis
    using 1 by (simp add: 2 account_balance_ledger3)
qed

end
